theory Spec2Isabelle
  imports Complex_Main "HOL-Library.Word" "HOL-Library.List_Lexorder"
begin

section \<open>Data model (types.ts)\<close>

text \<open>
  A JavaScript string is a sequence of UTF-16 code units; \<open>s.length\<close> and \<open>s[i]\<close> count
  code units. All operator symbols of the engine lie in the Basic Multilingual Plane, so
  each of them is one code unit.
\<close>

type_synonym jschar = "16 word"
type_synonym jsstring = "jschar list"

text \<open>An ASCII character as a code unit, and an ASCII literal as a JavaScript string.\<close>

definition cu :: "char \<Rightarrow> jschar" where
  "cu c = of_nat (of_char c)"

definition lit :: "string \<Rightarrow> jsstring" where
  "lit s = map cu s"

datatype formula =
    Var jsstring
  | Not formula
  | And formula formula
  | Or formula formula
  | Implies formula formula
  | Iff formula formula
  | Bottom

section \<open>Tokens (types.ts) and the lexer (parser/lexer.ts)\<close>























section \<open>Byte offsets\<close>


section \<open>Variable extraction (parser.ts, extractVariables)\<close>

text \<open>
  \<open>collect\<close> walks the formula depth first and adds names to a \<open>Set\<close>, which keeps the
  first occurrence of each name; \<open>Array.from(vars).sort()\<close> then sorts by code units.
\<close>

fun collect :: "formula \<Rightarrow> jsstring list \<Rightarrow> jsstring list" where
  "collect (Var name) vars = (if name \<in> set vars then vars else vars @ [name])"
| "collect Bottom vars = vars"
| "collect (Not operand) vars = collect operand vars"
| "collect (And l r) vars = collect r (collect l vars)"
| "collect (Or l r) vars = collect r (collect l vars)"
| "collect (Implies l r) vars = collect r (collect l vars)"
| "collect (Iff l r) vars = collect r (collect l vars)"

definition extractVariables :: "formula \<Rightarrow> jsstring list" where
  "extractVariables f = sort (collect f [])"

section \<open>Evaluation (truth-table/evaluate.ts)\<close>

text \<open>
  An assignment object \<open>Record<string, boolean>\<close> is a finite map from names to booleans
  (its own properties). \<open>evaluate\<close> throws when the looked-up value is \<open>undefined\<close>; the
  thrown error is the \<open>Inl\<close> branch. \<open>&&\<close> and \<open>||\<close> evaluate their right operand only
  when the left one does not decide the result.
\<close>

type_synonym assignment = "jsstring \<rightharpoonup> bool"

datatype eval_error = VariableNotFound jsstring

fun evaluate :: "formula \<Rightarrow> assignment \<Rightarrow> eval_error + bool" where
  "evaluate (Var name) a =
     (case a name of None \<Rightarrow> Inl (VariableNotFound name) | Some v \<Rightarrow> Inr v)"
| "evaluate Bottom a = Inr False"
| "evaluate (Not operand) a =
     (case evaluate operand a of Inl e \<Rightarrow> Inl e | Inr v \<Rightarrow> Inr (\<not> v))"
| "evaluate (And l r) a =
     (case evaluate l a of Inl e \<Rightarrow> Inl e
      | Inr lv \<Rightarrow> if lv then evaluate r a else Inr False)"
| "evaluate (Or l r) a =
     (case evaluate l a of Inl e \<Rightarrow> Inl e
      | Inr lv \<Rightarrow> if lv then Inr True else evaluate r a)"
| "evaluate (Implies l r) a =
     (case evaluate l a of Inl e \<Rightarrow> Inl e
      | Inr lv \<Rightarrow> if \<not> lv then Inr True else evaluate r a)"
| "evaluate (Iff l r) a =
     (case evaluate l a of Inl e \<Rightarrow> Inl e
      | Inr lv \<Rightarrow> (case evaluate r a of Inl e \<Rightarrow> Inl e | Inr rv \<Rightarrow> Inr (lv = rv)))"

text \<open>
  The classical truth value of a formula under a total valuation, as the specification
  words it: Bottom is false, Not negates, And and Or are conjunction and disjunction,
  Implies is "not left or right", Iff is equality of the two values.
\<close>

fun classical :: "(jsstring \<Rightarrow> bool) \<Rightarrow> formula \<Rightarrow> bool" where
  "classical v (Var name) = v name"
| "classical v Bottom = False"
| "classical v (Not x) = (\<not> classical v x)"
| "classical v (And x y) = (classical v x \<and> classical v y)"
| "classical v (Or x y) = (classical v x \<or> classical v y)"
| "classical v (Implies x y) = (\<not> classical v x \<or> classical v y)"
| "classical v (Iff x y) = (classical v x = classical v y)"

text \<open>The names occurring in a formula.\<close>

fun names :: "formula \<Rightarrow> jsstring set" where
  "names (Var name) = {name}"
| "names Bottom = {}"
| "names (Not x) = names x"
| "names (And x y) = names x \<union> names y"
| "names (Or x y) = names x \<union> names y"
| "names (Implies x y) = names x \<union> names y"
| "names (Iff x y) = names x \<union> names y"

section \<open>Assignment enumeration (truth-table/evaluate.ts)\<close>

text \<open>
  \<open>1 << k\<close> is a 32-bit operation: the shift count is taken modulo 32 and the result is
  a signed 32-bit integer.
\<close>

definition shl1 :: "nat \<Rightarrow> 32 word" where
  "shl1 k = push_bit (k mod 32) 1"

text \<open>
  The inner loop of \<open>generateAllAssignments\<close> for row \<open>i\<close>: for \<open>j = 0 .. n - 1\<close> it
  stores \<open>!(i & (1 << (n - 1 - j)))\<close> under \<open>variables[j]\<close>; a later store to the same
  name overwrites an earlier one.
\<close>

definition assignmentRow :: "jsstring list \<Rightarrow> nat \<Rightarrow> assignment" where
  "assignmentRow variables i =
     (let n = length variables in
      fold (\<lambda>j a. a(variables ! j \<mapsto> (and (word_of_nat i) (shl1 (n - 1 - j)) = 0)))
        [0..<n] Map.empty)"

text \<open>
  The outer loop runs \<open>i\<close> from 0 while \<open>i < total\<close>, with \<open>total = 1 << n\<close> read as a
  signed value; a non-positive \<open>total\<close> gives no row. The generator is consumed in order,
  so the list of its rows stands for it.
\<close>

definition generateAllAssignments :: "jsstring list \<Rightarrow> assignment list" where
  "generateAllAssignments variables =
     (let n = length variables; total = sint (shl1 n)
      in map (assignmentRow variables) [0..<nat total])"







section \<open>Truth tables, entailment, counterexamples (truth-table/generate.ts)\<close>





text \<open>\<open>[...new Set(xs)]\<close>: the elements in order of first occurrence.\<close>

definition setOrder :: "'a list \<Rightarrow> 'a list" where
  "setOrder xs = fold (\<lambda>x acc. if x \<in> set acc then acc else acc @ [x]) xs []"

definition allVars :: "formula list \<Rightarrow> formula \<Rightarrow> jsstring list" where
  "allVars premises conclusion =
     sort (setOrder (concat (map extractVariables premises) @ extractVariables conclusion))"

text \<open>\<open>premises.every((p) => evaluate(p, assignments))\<close> stops at the first false premise.\<close>

fun every_evaluate :: "formula list \<Rightarrow> assignment \<Rightarrow> eval_error + bool" where
  "every_evaluate [] a = Inr True"
| "every_evaluate (p # ps) a =
     (case evaluate p a of Inl e \<Rightarrow> Inl e
      | Inr v \<Rightarrow> if v then every_evaluate ps a else Inr False)"

fun entails_loop :: "formula list \<Rightarrow> formula \<Rightarrow> assignment list \<Rightarrow> eval_error + bool" where
  "entails_loop premises conclusion [] = Inr True"
| "entails_loop premises conclusion (a # rest) =
     (case every_evaluate premises a of Inl e \<Rightarrow> Inl e
      | Inr premisesTrue \<Rightarrow>
          if premisesTrue then
            (case evaluate conclusion a of Inl e \<Rightarrow> Inl e
             | Inr c \<Rightarrow> if \<not> c then Inr False else entails_loop premises conclusion rest)
          else entails_loop premises conclusion rest)"

definition entails :: "formula list \<Rightarrow> formula \<Rightarrow> eval_error + bool" where
  "entails premises conclusion =
     entails_loop premises conclusion (generateAllAssignments (allVars premises conclusion))"

fun findCounterexample_loop ::
  "formula list \<Rightarrow> formula \<Rightarrow> assignment list \<Rightarrow> eval_error + assignment option" where
  "findCounterexample_loop premises conclusion [] = Inr None"
| "findCounterexample_loop premises conclusion (a # rest) =
     (case every_evaluate premises a of Inl e \<Rightarrow> Inl e
      | Inr premisesTrue \<Rightarrow>
          if premisesTrue then
            (case evaluate conclusion a of Inl e \<Rightarrow> Inl e
             | Inr c \<Rightarrow> if \<not> c then Inr (Some a)
                       else findCounterexample_loop premises conclusion rest)
          else findCounterexample_loop premises conclusion rest)"

definition findCounterexample :: "formula list \<Rightarrow> formula \<Rightarrow> eval_error + assignment option" where
  "findCounterexample premises conclusion =
     findCounterexample_loop premises conclusion
       (generateAllAssignments (allVars premises conclusion))"

section \<open>Structural equality (parser.ts, formulaEquals)\<close>

fun formulaEquals :: "formula \<Rightarrow> formula \<Rightarrow> bool" where
  "formulaEquals (Var a) (Var b) = (a = b)"
| "formulaEquals Bottom Bottom = True"
| "formulaEquals (Not a) (Not b) = formulaEquals a b"
| "formulaEquals (And a1 a2) (And b1 b2) = (formulaEquals a1 b1 \<and> formulaEquals a2 b2)"
| "formulaEquals (Or a1 a2) (Or b1 b2) = (formulaEquals a1 b1 \<and> formulaEquals a2 b2)"
| "formulaEquals (Implies a1 a2) (Implies b1 b2) = (formulaEquals a1 b1 \<and> formulaEquals a2 b2)"
| "formulaEquals (Iff a1 a2) (Iff b1 b2) = (formulaEquals a1 b1 \<and> formulaEquals a2 b2)"
| "formulaEquals a b = False"

section \<open>Proof steps and rules (types.ts, validator/rules.ts)\<close>

datatype inferenceRule =
    Assumption | And_intro | And_elim_l | And_elim_r | Or_intro_l | Or_intro_r | Or_elim
  | Implies_intro | Implies_elim | Not_intro | Not_elim | Iff_intro | Iff_elim
  | Bottom_elim | Raa | Theorem

text \<open>Step identifiers are opaque strings that are only compared for equality.\<close>

record proofStep =
  step_id :: string
  step_formula :: formula
  step_rule :: inferenceRule
  step_justification :: "string list"
  step_depth :: nat
  step_theoremId :: "string option"

record provenTheorem =
  thm_id :: string
  thm_premises :: "formula list"
  thm_conclusion :: formula

datatype errorCode =
    EMPTY_PROOF | INSUFFICIENT_JUSTIFICATIONS | TOO_MANY_JUSTIFICATIONS
  | JUSTIFICATION_NOT_FOUND | INACCESSIBLE_JUSTIFICATION | WRONG_PREMISE_TYPE
  | WRONG_CONCLUSION_TYPE | CONCLUSION_MISMATCH | INVALID_SUBPROOF | SUBPROOF_MISMATCH
  | SUBPROOF_CONCLUSION_MISMATCH | INVALID_JUSTIFICATION | MISSING_THEOREM_ID
  | THEOREM_NOT_FOUND | THEOREM_MISMATCH | UNKNOWN_RULE

text \<open>
  A validation error carries the step identifier and the error code; its message is
  diagnostic text built from them and is left out.
\<close>

record validationError =
  stepId :: string
  code :: errorCode

record proofCheckResult =
  valid :: bool
  complete :: bool
  errors :: "validationError list"

fun getRequiredJustificationCount :: "inferenceRule \<Rightarrow> nat \<times> nat" where
  "getRequiredJustificationCount Assumption = (0, 0)"
| "getRequiredJustificationCount And_intro = (2, 2)"
| "getRequiredJustificationCount And_elim_l = (1, 1)"
| "getRequiredJustificationCount And_elim_r = (1, 1)"
| "getRequiredJustificationCount Or_intro_l = (1, 1)"
| "getRequiredJustificationCount Or_intro_r = (1, 1)"
| "getRequiredJustificationCount Or_elim = (3, 3)"
| "getRequiredJustificationCount Implies_intro = (1, 1)"
| "getRequiredJustificationCount Implies_elim = (2, 2)"
| "getRequiredJustificationCount Not_intro = (1, 1)"
| "getRequiredJustificationCount Not_elim = (1, 1)"
| "getRequiredJustificationCount Iff_intro = (2, 2)"
| "getRequiredJustificationCount Iff_elim = (2, 2)"
| "getRequiredJustificationCount Bottom_elim = (1, 1)"
| "getRequiredJustificationCount Raa = (1, 1)"
| "getRequiredJustificationCount Theorem = (0, 0)"

definition opensSubproof :: "inferenceRule \<Rightarrow> bool" where
  "opensSubproof r = (r = Assumption)"

section \<open>Subproof scopes (validator/checker.ts, buildProofLineInfo)\<close>

record proofLineInfo =
  step :: proofStep
  index :: nat
  accessible :: bool
  isSubproofStart :: bool
  isSubproofEnd :: bool
  subproofEnd :: "nat option"

text \<open>An entry of \<open>subproofStack\<close>: \<open>(startIndex, depth)\<close>. The top of the stack is the head.\<close>

type_synonym scope = "nat \<times> nat"

text \<open>\<open>for (j = from; j < to; j++) lines[j].accessible = false\<close>\<close>

definition markInaccessible :: "nat \<Rightarrow> nat \<Rightarrow> proofLineInfo list \<Rightarrow> proofLineInfo list" where
  "markInaccessible from to lines =
     fold (\<lambda>j ls. ls[j := (ls ! j)\<lparr>accessible := False\<rparr>]) [from..<to] lines"

text \<open>
  Closing one popped scope at step \<open>i\<close>: the opening line gets \<open>subproofEnd = i - 1\<close> and
  the lines \<open>startIndex .. i - 1\<close> are marked. A scope is only on the stack at a later
  step than its start, so \<open>i - 1\<close> is not negative.
\<close>

definition closeScope :: "nat \<Rightarrow> scope \<Rightarrow> proofLineInfo list \<Rightarrow> proofLineInfo list" where
  "closeScope i popped lines =
     markInaccessible (fst popped) i
       (lines[fst popped := (lines ! fst popped)\<lparr>subproofEnd := Some (i - 1)\<rparr>])"

text \<open>The \<open>while\<close> loop that pops scopes at step \<open>i\<close> of depth \<open>d\<close>.\<close>

fun closeSubproofs ::
  "nat \<Rightarrow> nat \<Rightarrow> bool \<Rightarrow> scope list \<Rightarrow> proofLineInfo list \<Rightarrow> scope list \<times> proofLineInfo list"
where
  "closeSubproofs i d newSubproofAtSameDepth [] lines = ([], lines)"
| "closeSubproofs i d newSubproofAtSameDepth (sc # stack) lines =
     (if d < snd sc \<or> (newSubproofAtSameDepth \<and> d = snd sc)
      then closeSubproofs i d newSubproofAtSameDepth stack (closeScope i sc lines)
      else (sc # stack, lines))"

text \<open>The body of the main loop for step \<open>i\<close>.\<close>

definition lineInfoStep ::
  "proofStep list \<Rightarrow> nat \<Rightarrow> scope list \<times> proofLineInfo list \<Rightarrow> scope list \<times> proofLineInfo list"
where
  "lineInfoStep steps i st =
     (let s = steps ! i;
          prevDepth = (if i > 0 then step_depth (steps ! (i - 1)) else 0);
          isAssumption = opensSubproof (step_rule s);
          depthIncreased = (step_depth s > prevDepth);
          newSubproofAtSameDepth = (isAssumption \<and> step_depth s > 0 \<and> step_depth s = prevDepth);
          isStart = (isAssumption \<and> (depthIncreased \<or> newSubproofAtSameDepth));
          (stack, lines) = closeSubproofs i (step_depth s) newSubproofAtSameDepth (fst st) (snd st);
          lineInfo = \<lparr>step = s, index = i, accessible = True, isSubproofStart = isStart,
                      isSubproofEnd = False, subproofEnd = None\<rparr>
      in ((if isStart then (i, step_depth s) # stack else stack), lines @ [lineInfo]))"

text \<open>Closing the scopes that are still open after the last step.\<close>

fun closeRemaining :: "scope list \<Rightarrow> proofLineInfo list \<Rightarrow> proofLineInfo list" where
  "closeRemaining [] lines = lines"
| "closeRemaining (sc # stack) lines =
     closeRemaining stack
       (markInaccessible (fst sc) (length lines)
          (lines[fst sc := (lines ! fst sc)\<lparr>subproofEnd := Some (length lines - 1)\<rparr>]))"

text \<open>The final pass that flags the last line of every subproof.\<close>

definition markSubproofEnds :: "proofLineInfo list \<Rightarrow> proofLineInfo list" where
  "markSubproofEnds lines =
     fold (\<lambda>k ls. case subproofEnd (ls ! k) of
                    Some e \<Rightarrow> if isSubproofStart (ls ! k)
                              then ls[e := (ls ! e)\<lparr>isSubproofEnd := True\<rparr>] else ls
                  | None \<Rightarrow> ls)
       [0..<length lines] lines"

definition buildProofLineInfo :: "proofStep list \<Rightarrow> proofLineInfo list" where
  "buildProofLineInfo steps =
     (let (stack, lines) = fold (lineInfoStep steps) [0..<length steps] ([], [])
      in markSubproofEnds (closeRemaining stack lines))"

section \<open>Accessibility (validator/checker.ts)\<close>

text \<open>
  \<open>getSubproofAncestors\<close>: the loop runs \<open>i\<close> from \<open>idx\<close> down to 0 and keeps the lowest
  depth seen so far in \<open>currentDepth\<close>. The first argument counts the indices still to
  visit, so the loop visits \<open>i = k - 1\<close>.
\<close>

fun ancestors_loop :: "proofLineInfo list \<Rightarrow> nat \<Rightarrow> nat \<Rightarrow> nat list" where
  "ancestors_loop lines 0 currentDepth = []"
| "ancestors_loop lines (Suc i) currentDepth =
     (let line = lines ! i in
      if isSubproofStart line \<and> step_depth (step line) < currentDepth
      then i # ancestors_loop lines i (step_depth (step line))
      else ancestors_loop lines i currentDepth)"

definition getSubproofAncestors :: "proofLineInfo list \<Rightarrow> nat \<Rightarrow> nat list" where
  "getSubproofAncestors lines idx =
     ancestors_loop lines (Suc idx) (step_depth (step (lines ! idx)))"

fun branch_loop :: "proofLineInfo list \<Rightarrow> nat list \<Rightarrow> nat \<Rightarrow> bool" where
  "branch_loop lines [] currentIdx = True"
| "branch_loop lines (ancestor # rest) currentIdx =
     (let ancestorLine = lines ! ancestor in
      case subproofEnd ancestorLine of
        None \<Rightarrow> branch_loop lines rest currentIdx
      | Some e \<Rightarrow>
          if e < currentIdx then False
          else if currentIdx < ancestor \<or> currentIdx > e then False
          else branch_loop lines rest currentIdx)"

definition isInSameSubproofBranch :: "proofLineInfo list \<Rightarrow> nat \<Rightarrow> nat \<Rightarrow> bool" where
  "isInSameSubproofBranch lines targetIdx currentIdx =
     branch_loop lines (getSubproofAncestors lines targetIdx) currentIdx"

definition isLineAccessible :: "proofLineInfo list \<Rightarrow> nat \<Rightarrow> nat \<Rightarrow> nat \<Rightarrow> bool" where
  "isLineAccessible lines targetIdx currentIdx currentDepth =
     (if targetIdx > currentIdx then False
      else let targetDepth = step_depth (step (lines ! targetIdx)) in
        if targetDepth = 0 then True
        else if targetDepth > currentDepth
          then isInSameSubproofBranch lines targetIdx currentIdx
        else isInSameSubproofBranch lines targetIdx currentIdx)"

section \<open>Per-step validation (validator/validator.ts)\<close>

record validationContext =
  ctx_lines :: "proofLineInfo list"
  currentIndex :: nat
  currentDepth :: nat
  ctx_premises :: "formula list"

definition err :: "proofStep \<Rightarrow> errorCode \<Rightarrow> validationError" where
  "err s c = \<lparr>stepId = step_id s, code = c\<rparr>"

text \<open>
  \<open>step.justification[k]\<close>, which is \<open>undefined\<close> past the end of the array, and the two
  lookups \<open>getLineInfo\<close> and \<open>getFormula\<close>: \<open>find\<close> returns the first line whose step has
  the identifier, and no line matches \<open>undefined\<close>.
\<close>

definition justAt :: "proofStep \<Rightarrow> nat \<Rightarrow> string option" where
  "justAt s k = (if k < length (step_justification s) then Some (step_justification s ! k) else None)"

definition getLineInfo :: "validationContext \<Rightarrow> string option \<Rightarrow> proofLineInfo option" where
  "getLineInfo ctx justId =
     (case justId of None \<Rightarrow> None
      | Some j \<Rightarrow> find (\<lambda>l. step_id (step l) = j) (ctx_lines ctx))"

definition getFormula :: "validationContext \<Rightarrow> string option \<Rightarrow> formula option" where
  "getFormula ctx justId = map_option (\<lambda>l. step_formula (step l)) (getLineInfo ctx justId)"

text \<open>\<open>context.lines[k]\<close>, which is \<open>undefined\<close> past the end of the array.\<close>

definition lineAt :: "validationContext \<Rightarrow> nat \<Rightarrow> proofLineInfo option" where
  "lineAt ctx k = (if k < length (ctx_lines ctx) then Some (ctx_lines ctx ! k) else None)"

definition rule_and_intro :: "proofStep \<Rightarrow> validationContext \<Rightarrow> validationError list" where
  "rule_and_intro s ctx =
     (case (getFormula ctx (justAt s 0), getFormula ctx (justAt s 1)) of
        (Some left, Some right) \<Rightarrow>
          (case step_formula s of
             And fl fr \<Rightarrow>
               if \<not> formulaEquals fl left \<or> \<not> formulaEquals fr right
               then [err s CONCLUSION_MISMATCH] else []
           | _ \<Rightarrow> [err s WRONG_CONCLUSION_TYPE])
      | _ \<Rightarrow> [err s INVALID_JUSTIFICATION])"

definition rule_and_elim_l :: "proofStep \<Rightarrow> validationContext \<Rightarrow> validationError list" where
  "rule_and_elim_l s ctx =
     (case getFormula ctx (justAt s 0) of
        Some (And cl cr) \<Rightarrow>
          if \<not> formulaEquals (step_formula s) cl then [err s CONCLUSION_MISMATCH] else []
      | _ \<Rightarrow> [err s WRONG_PREMISE_TYPE])"

definition rule_and_elim_r :: "proofStep \<Rightarrow> validationContext \<Rightarrow> validationError list" where
  "rule_and_elim_r s ctx =
     (case getFormula ctx (justAt s 0) of
        Some (And cl cr) \<Rightarrow>
          if \<not> formulaEquals (step_formula s) cr then [err s CONCLUSION_MISMATCH] else []
      | _ \<Rightarrow> [err s WRONG_PREMISE_TYPE])"

definition rule_or_intro_l :: "proofStep \<Rightarrow> validationContext \<Rightarrow> validationError list" where
  "rule_or_intro_l s ctx =
     (case getFormula ctx (justAt s 0) of
        None \<Rightarrow> [err s INVALID_JUSTIFICATION]
      | Some operand \<Rightarrow>
          (case step_formula s of
             Or fl fr \<Rightarrow>
               if \<not> formulaEquals fl operand then [err s CONCLUSION_MISMATCH] else []
           | _ \<Rightarrow> [err s WRONG_CONCLUSION_TYPE]))"

definition rule_or_intro_r :: "proofStep \<Rightarrow> validationContext \<Rightarrow> validationError list" where
  "rule_or_intro_r s ctx =
     (case getFormula ctx (justAt s 0) of
        None \<Rightarrow> [err s INVALID_JUSTIFICATION]
      | Some operand \<Rightarrow>
          (case step_formula s of
             Or fl fr \<Rightarrow>
               if \<not> formulaEquals fr operand then [err s CONCLUSION_MISMATCH] else []
           | _ \<Rightarrow> [err s WRONG_CONCLUSION_TYPE]))"

text \<open>
  The test \<open>!sub.isSubproofStart || sub.subproofEnd === undefined\<close> followed by the read
  of the subproof's last line \<open>context.lines[sub.subproofEnd]\<close>: the result is the
  opening line's \<open>subproofEnd\<close> when the line is a complete subproof.
\<close>

definition completeSubproof :: "proofLineInfo \<Rightarrow> nat option" where
  "completeSubproof sub = (if isSubproofStart sub then subproofEnd sub else None)"

definition rule_or_elim :: "proofStep \<Rightarrow> validationContext \<Rightarrow> validationError list" where
  "rule_or_elim s ctx =
     (case getFormula ctx (justAt s 0) of
        Some (Or dl dr) \<Rightarrow>
          (case (getLineInfo ctx (justAt s 1), getLineInfo ctx (justAt s 2)) of
             (Some sub1, Some sub2) \<Rightarrow>
               (case completeSubproof sub1 of
                  None \<Rightarrow> [err s INVALID_SUBPROOF]
                | Some end1 \<Rightarrow>
                    if \<not> formulaEquals (step_formula (step sub1)) dl
                    then [err s SUBPROOF_MISMATCH]
                    else if (case lineAt ctx end1 of None \<Rightarrow> True
                             | Some sub1End \<Rightarrow>
                                 \<not> formulaEquals (step_formula (step sub1End)) (step_formula s))
                    then [err s SUBPROOF_CONCLUSION_MISMATCH]
                    else
                      (case completeSubproof sub2 of
                         None \<Rightarrow> [err s INVALID_SUBPROOF]
                       | Some end2 \<Rightarrow>
                           if \<not> formulaEquals (step_formula (step sub2)) dr
                           then [err s SUBPROOF_MISMATCH]
                           else if (case lineAt ctx end2 of None \<Rightarrow> True
                                    | Some sub2End \<Rightarrow>
                                        \<not> formulaEquals (step_formula (step sub2End))
                                            (step_formula s))
                           then [err s SUBPROOF_CONCLUSION_MISMATCH]
                           else []))
           | _ \<Rightarrow> [err s INVALID_JUSTIFICATION])
      | _ \<Rightarrow> [err s WRONG_PREMISE_TYPE])"

definition rule_implies_intro :: "proofStep \<Rightarrow> validationContext \<Rightarrow> validationError list" where
  "rule_implies_intro s ctx =
     (case Option.bind (getLineInfo ctx (justAt s 0))
             (\<lambda>sub. map_option (\<lambda>e. (sub, e)) (completeSubproof sub)) of
        None \<Rightarrow> [err s INVALID_SUBPROOF]
      | Some (subproofStart, e) \<Rightarrow>
          (case step_formula s of
             Implies fl fr \<Rightarrow>
               if \<not> formulaEquals (step_formula (step subproofStart)) fl
               then [err s SUBPROOF_MISMATCH]
               else if (case lineAt ctx e of None \<Rightarrow> True
                        | Some endLine \<Rightarrow> \<not> formulaEquals (step_formula (step endLine)) fr)
               then [err s SUBPROOF_CONCLUSION_MISMATCH]
               else []
           | _ \<Rightarrow> [err s WRONG_CONCLUSION_TYPE]))"

text \<open>
  \<open>implies_elim\<close>: the swapped order is tried only when the first justification is not a
  conditional. The rule runs after every justification has been resolved, so
  \<open>maybeAntecedent\<close> is a formula there.
\<close>

definition rule_implies_elim :: "proofStep \<Rightarrow> validationContext \<Rightarrow> validationError list" where
  "rule_implies_elim s ctx =
     (let conditional = getFormula ctx (justAt s 0);
          antecedent = getFormula ctx (justAt s 1)
      in case conditional of
        Some (Implies cl cr) \<Rightarrow>
          (case antecedent of
             None \<Rightarrow> [err s INVALID_JUSTIFICATION]
           | Some a \<Rightarrow>
               if \<not> formulaEquals cl a then [err s CONCLUSION_MISMATCH]
               else if \<not> formulaEquals cr (step_formula s) then [err s CONCLUSION_MISMATCH]
               else [])
      | _ \<Rightarrow>
          (let maybeConditional = antecedent; maybeAntecedent = conditional
           in case maybeConditional of
             Some (Implies ml mr) \<Rightarrow>
               if (case maybeAntecedent of None \<Rightarrow> False | Some a \<Rightarrow> formulaEquals ml a)
                  \<and> formulaEquals mr (step_formula s)
               then [] else [err s WRONG_PREMISE_TYPE]
           | _ \<Rightarrow> [err s WRONG_PREMISE_TYPE]))"

definition rule_not_intro :: "proofStep \<Rightarrow> validationContext \<Rightarrow> validationError list" where
  "rule_not_intro s ctx =
     (case Option.bind (getLineInfo ctx (justAt s 0))
             (\<lambda>sub. map_option (\<lambda>e. (sub, e)) (completeSubproof sub)) of
        None \<Rightarrow> [err s INVALID_SUBPROOF]
      | Some (subproofStart, e) \<Rightarrow>
          (case step_formula s of
             Not operand \<Rightarrow>
               if \<not> formulaEquals (step_formula (step subproofStart)) operand
               then [err s SUBPROOF_MISMATCH]
               else if (case lineAt ctx e of None \<Rightarrow> True
                        | Some endLine \<Rightarrow> step_formula (step endLine) \<noteq> Bottom)
               then [err s SUBPROOF_CONCLUSION_MISMATCH]
               else []
           | _ \<Rightarrow> [err s WRONG_CONCLUSION_TYPE]))"

definition rule_not_elim :: "proofStep \<Rightarrow> validationContext \<Rightarrow> validationError list" where
  "rule_not_elim s ctx =
     (case getFormula ctx (justAt s 0) of
        Some (Not (Not x)) \<Rightarrow>
          if \<not> formulaEquals x (step_formula s) then [err s CONCLUSION_MISMATCH] else []
      | _ \<Rightarrow> [err s WRONG_PREMISE_TYPE])"

definition rule_iff_intro :: "proofStep \<Rightarrow> validationContext \<Rightarrow> validationError list" where
  "rule_iff_intro s ctx =
     (case (getFormula ctx (justAt s 0), getFormula ctx (justAt s 1)) of
        (Some (Implies l1 r1), Some (Implies l2 r2)) \<Rightarrow>
          (case step_formula s of
             Iff fl fr \<Rightarrow>
               (let valid1 = (formulaEquals l1 fl \<and> formulaEquals r1 fr \<and>
                              formulaEquals l2 fr \<and> formulaEquals r2 fl);
                    valid2 = (formulaEquals l2 fl \<and> formulaEquals r2 fr \<and>
                              formulaEquals l1 fr \<and> formulaEquals r1 fl)
                in if \<not> valid1 \<and> \<not> valid2 then [err s CONCLUSION_MISMATCH] else [])
           | _ \<Rightarrow> [err s WRONG_CONCLUSION_TYPE])
      | _ \<Rightarrow> [err s WRONG_PREMISE_TYPE])"

definition rule_iff_elim :: "proofStep \<Rightarrow> validationContext \<Rightarrow> validationError list" where
  "rule_iff_elim s ctx =
     (let biconditional = getFormula ctx (justAt s 0);
          operand = getFormula ctx (justAt s 1)
      in case biconditional of
        Some (Iff bl br) \<Rightarrow>
          (case operand of
             None \<Rightarrow> [err s INVALID_JUSTIFICATION]
           | Some x \<Rightarrow>
               if formulaEquals bl x \<and> formulaEquals br (step_formula s) then []
               else if formulaEquals br x \<and> formulaEquals bl (step_formula s) then []
               else [err s CONCLUSION_MISMATCH])
      | _ \<Rightarrow>
          (case operand of
             Some (Iff ml mr) \<Rightarrow>
               (case biconditional of
                  Some maybeOp \<Rightarrow>
                    if (formulaEquals ml maybeOp \<and> formulaEquals mr (step_formula s)) \<or>
                       (formulaEquals mr maybeOp \<and> formulaEquals ml (step_formula s))
                    then [] else [err s WRONG_PREMISE_TYPE]
                | None \<Rightarrow> [err s WRONG_PREMISE_TYPE])
           | _ \<Rightarrow> [err s WRONG_PREMISE_TYPE]))"

definition rule_bottom_elim :: "proofStep \<Rightarrow> validationContext \<Rightarrow> validationError list" where
  "rule_bottom_elim s ctx =
     (case getFormula ctx (justAt s 0) of
        Some Bottom \<Rightarrow> []
      | _ \<Rightarrow> [err s WRONG_PREMISE_TYPE])"

definition rule_raa :: "proofStep \<Rightarrow> validationContext \<Rightarrow> validationError list" where
  "rule_raa s ctx =
     (case Option.bind (getLineInfo ctx (justAt s 0))
             (\<lambda>sub. map_option (\<lambda>e. (sub, e)) (completeSubproof sub)) of
        None \<Rightarrow> [err s INVALID_SUBPROOF]
      | Some (subproofStart, e) \<Rightarrow>
          (case step_formula (step subproofStart) of
             Not operand \<Rightarrow>
               if \<not> formulaEquals operand (step_formula s) then [err s SUBPROOF_MISMATCH]
               else if (case lineAt ctx e of None \<Rightarrow> True
                        | Some endLine \<Rightarrow> step_formula (step endLine) \<noteq> Bottom)
               then [err s SUBPROOF_CONCLUSION_MISMATCH]
               else []
           | _ \<Rightarrow> [err s SUBPROOF_MISMATCH]))"

text \<open>\<open>!step.theoremId\<close> holds for a missing identifier and for the empty string.\<close>

definition rule_theorem :: "proofStep \<Rightarrow> validationContext \<Rightarrow> validationError list" where
  "rule_theorem s ctx =
     (case step_theoremId s of
        None \<Rightarrow> [err s MISSING_THEOREM_ID]
      | Some t \<Rightarrow> if t = [] then [err s MISSING_THEOREM_ID] else [])"

text \<open>The \<open>switch\<close> on the rule; the rule type has no value for its \<open>default\<close> branch.\<close>

fun validateRuleApplication :: "proofStep \<Rightarrow> validationContext \<Rightarrow> validationError list" where
  "validateRuleApplication s ctx =
     (case step_rule s of
        Assumption \<Rightarrow> []
      | And_intro \<Rightarrow> rule_and_intro s ctx
      | And_elim_l \<Rightarrow> rule_and_elim_l s ctx
      | And_elim_r \<Rightarrow> rule_and_elim_r s ctx
      | Or_intro_l \<Rightarrow> rule_or_intro_l s ctx
      | Or_intro_r \<Rightarrow> rule_or_intro_r s ctx
      | Or_elim \<Rightarrow> rule_or_elim s ctx
      | Implies_intro \<Rightarrow> rule_implies_intro s ctx
      | Implies_elim \<Rightarrow> rule_implies_elim s ctx
      | Not_intro \<Rightarrow> rule_not_intro s ctx
      | Not_elim \<Rightarrow> rule_not_elim s ctx
      | Iff_intro \<Rightarrow> rule_iff_intro s ctx
      | Iff_elim \<Rightarrow> rule_iff_elim s ctx
      | Bottom_elim \<Rightarrow> rule_bottom_elim s ctx
      | Raa \<Rightarrow> rule_raa s ctx
      | Theorem \<Rightarrow> rule_theorem s ctx)"

text \<open>
  The loop of \<open>validateStep\<close> over the justification identifiers: an identifier that does
  not resolve adds \<open>JUSTIFICATION_NOT_FOUND\<close> and the loop continues with the next one;
  one that resolves to an inaccessible line adds \<open>INACCESSIBLE_JUSTIFICATION\<close>.
\<close>

fun justificationErrors :: "proofStep \<Rightarrow> validationContext \<Rightarrow> string list \<Rightarrow> validationError list" where
  "justificationErrors s ctx [] = []"
| "justificationErrors s ctx (justId # rest) =
     (case find (\<lambda>l. step_id (step l) = justId) (ctx_lines ctx) of
        None \<Rightarrow> err s JUSTIFICATION_NOT_FOUND # justificationErrors s ctx rest
      | Some justLine \<Rightarrow>
          if \<not> accessible justLine
          then err s INACCESSIBLE_JUSTIFICATION # justificationErrors s ctx rest
          else justificationErrors s ctx rest)"

definition validateStep :: "proofStep \<Rightarrow> validationContext \<Rightarrow> validationError list" where
  "validateStep s ctx =
     (let (minJust, maxJust) = getRequiredJustificationCount (step_rule s) in
      if length (step_justification s) < minJust then [err s INSUFFICIENT_JUSTIFICATIONS]
      else if length (step_justification s) > maxJust then [err s TOO_MANY_JUSTIFICATIONS]
      else
        (let errors = justificationErrors s ctx (step_justification s) in
         if length errors > 0 then errors
         else validateRuleApplication s ctx))"

section \<open>Checking a whole proof (validator/checker.ts, checkProof)\<close>

definition isPremise :: "formula \<Rightarrow> formula list \<Rightarrow> bool" where
  "isPremise f premises = list_ex (\<lambda>p. formulaEquals p f) premises"

text \<open>
  The context of step \<open>i\<close>: the lines up to \<open>i\<close>, each with its accessibility from \<open>i\<close>.
\<close>

definition contextAt :: "proofLineInfo list \<Rightarrow> formula list \<Rightarrow> proofStep \<Rightarrow> nat \<Rightarrow> validationContext" where
  "contextAt lines premises s i =
     \<lparr>ctx_lines = map (\<lambda>(idx, line). line\<lparr>accessible := isLineAccessible lines idx i (step_depth s)\<rparr>)
                    (enumerate 0 (take (i + 1) lines)),
      currentIndex = i, currentDepth = step_depth s, ctx_premises = premises\<rparr>"

text \<open>The body of the loop of \<open>checkProof\<close>: the errors that step \<open>i\<close> adds.\<close>

definition stepErrors ::
  "proofStep list \<Rightarrow> formula list \<Rightarrow> provenTheorem list \<Rightarrow> proofLineInfo list \<Rightarrow> nat \<Rightarrow> validationError list"
where
  "stepErrors steps premises theoremLibrary lines i =
     (let s = steps ! i; context = contextAt lines premises s i in
      if step_rule s = Assumption \<and> step_depth s = 0 \<and> isPremise (step_formula s) premises
      then []
      else if step_rule s = Theorem
      then (case find (\<lambda>t. Some (thm_id t) = step_theoremId s) theoremLibrary of
              None \<Rightarrow> [err s THEOREM_NOT_FOUND]
            | Some t \<Rightarrow>
                if \<not> formulaEquals (thm_conclusion t) (step_formula s)
                then [err s THEOREM_MISMATCH] else [])
      else validateStep s context)"

definition checkProof ::
  "proofStep list \<Rightarrow> formula list \<Rightarrow> formula \<Rightarrow> provenTheorem list \<Rightarrow> proofCheckResult"
where
  "checkProof steps premises conclusion theoremLibrary =
     (if length steps = 0
      then \<lparr>valid = False, complete = False, errors = [\<lparr>stepId = [], code = EMPTY_PROOF\<rparr>]\<rparr>
      else
        (let lines = buildProofLineInfo steps;
             allErrors = concat (map (stepErrors steps premises theoremLibrary lines)
                                     [0..<length steps]);
             lastStep = steps ! (length steps - 1);
             complete = (step_depth lastStep = 0 \<and> formulaEquals (step_formula lastStep) conclusion)
         in \<lparr>valid = (length allErrors = 0), complete = complete, errors = allErrors\<rparr>))"

text \<open>\<open>validateNewStep\<close>: one new step checked against the existing proof.\<close>

definition validateNewStep :: "proofStep list \<Rightarrow> proofStep \<Rightarrow> formula list \<Rightarrow> validationError list" where
  "validateNewStep existingSteps newStep premises =
     (let allSteps = existingSteps @ [newStep];
          lines = buildProofLineInfo allSteps;
          currentIdx = length allSteps - 1;
          context = contextAt lines premises newStep currentIdx
      in if step_rule newStep = Assumption \<and> step_depth newStep = 0
            \<and> isPremise (step_formula newStep) premises
         then [] else validateStep newStep context)"

section \<open>Building steps (validator.test.ts, makeStep)\<close>

text \<open>The helper of the test suite, with the identifier given and no theorem citation.\<close>

definition makeStep :: "formula \<Rightarrow> inferenceRule \<Rightarrow> string list \<Rightarrow> nat \<Rightarrow> string \<Rightarrow> proofStep" where
  "makeStep f r js d i =
     \<lparr>step_id = i, step_formula = f, step_rule = r, step_justification = js,
      step_depth = d, step_theoremId = None\<rparr>"

section \<open>Facts about evaluation\<close>

lemma set_collect: "set (collect f vars) = set vars \<union> names f"
  by (induction f arbitrary: vars) auto


lemma set_extractVariables: "set (extractVariables f) = names f"
  by (simp add: extractVariables_def set_collect)




lemma evaluate_total_classical:
  "\<forall>n \<in> names f. a n \<noteq> None \<Longrightarrow> evaluate f a = Inr (classical (\<lambda>n. the (a n)) f)"
  by (induction f) auto

lemma evaluate_total:
  assumes "names p \<subseteq> dom a"
  shows "evaluate p a = Inr (classical (\<lambda>n. the (a n)) p)"
proof -
  from assms have "\<forall>n \<in> names p. a n \<noteq> None" by auto
  then show ?thesis by (rule evaluate_total_classical)
qed




section \<open>Facts about entailment\<close>

lemma dom_fold_upd:
  "dom (fold (\<lambda>j a. a(f j \<mapsto> g j)) js a0) = dom a0 \<union> f ` set js"
  by (induction js arbitrary: a0) auto

lemma dom_assignmentRow: "dom (assignmentRow vars i) = set vars"
proof -
  have "(\<lambda>j. vars ! j) ` set [0..<length vars] = set (map (\<lambda>j. vars ! j) [0..<length vars])"
    by (simp only: set_map)
  also have "\<dots> = set vars"
    by (simp only: map_nth)
  finally have *: "(\<lambda>j. vars ! j) ` set [0..<length vars] = set vars" .
  have "dom (assignmentRow vars i)
          = dom (Map.empty :: assignment) \<union> (\<lambda>j. vars ! j) ` set [0..<length vars]"
    unfolding assignmentRow_def Let_def by (rule dom_fold_upd)
  then show ?thesis
    unfolding * by simp
qed

lemma every_evaluate_total:
  "\<forall>p \<in> set P. names p \<subseteq> dom a \<Longrightarrow> \<exists>b. every_evaluate P a = Inr b"
proof (induction P)
  case Nil
  then show ?case by auto
next
  case (Cons p P)
  then have "evaluate p a = Inr (classical (\<lambda>n. the (a n)) p)"
    by (simp add: evaluate_total)
  moreover from Cons have "\<exists>b. every_evaluate P a = Inr b" by simp
  ultimately show ?case by (cases "classical (\<lambda>n. the (a n)) p") auto
qed

lemma entails_loop_total:
  assumes "\<forall>a \<in> set as. (\<forall>p \<in> set P. names p \<subseteq> dom a) \<and> names c \<subseteq> dom a"
  shows "\<exists>b. entails_loop P c as = Inr b"
  using assms
proof (induction as)
  case Nil
  then show ?case by auto
next
  case (Cons a as)
  then obtain b where b: "every_evaluate P a = Inr b"
    using every_evaluate_total [of P a] by auto
  from Cons.prems have c: "evaluate c a = Inr (classical (\<lambda>n. the (a n)) c)"
    by (simp add: evaluate_total)
  from Cons have ih: "\<exists>b. entails_loop P c as = Inr b" by simp
  show ?case using b c ih by (cases b; cases "classical (\<lambda>n. the (a n)) c") auto
qed

lemma set_setOrder_aux:
  "set (fold (\<lambda>x acc. if x \<in> set acc then acc else acc @ [x]) xs ys) = set ys \<union> set xs"
  by (induction xs arbitrary: ys) auto

lemma set_setOrder: "set (setOrder xs) = set xs"
  by (simp add: setOrder_def set_setOrder_aux)

lemma set_allVars: "set (allVars P c) = (\<Union>p \<in> set P. names p) \<union> names c"
  by (simp add: allVars_def set_setOrder set_extractVariables)

lemma entails_total: "\<exists>b. entails P c = Inr b"
proof -
  have "\<forall>a \<in> set (generateAllAssignments (allVars P c)).
          (\<forall>p \<in> set P. names p \<subseteq> dom a) \<and> names c \<subseteq> dom a"
    by (auto simp: generateAllAssignments_def Let_def dom_assignmentRow set_allVars)
  then show ?thesis
    unfolding entails_def by (rule entails_loop_total)
qed

lemma loops_agree:
  "(entails_loop P c as = Inr True) = (findCounterexample_loop P c as = Inr None)"
  by (induction as) (auto split: sum.splits)

text \<open>
  C7. For every list of premises and every conclusion, \<open>entails\<close> returns a boolean, and
  that boolean is true exactly when \<open>findCounterexample\<close> returns no assignment.
\<close>

theorem entails_iff_no_counterexample:
  "entails P c = Inr (findCounterexample P c = Inr None)"
proof -
  obtain b where b: "entails P c = Inr b"
    using entails_total by blast
  have "(entails P c = Inr True) = (findCounterexample P c = Inr None)"
    unfolding entails_def findCounterexample_def by (rule loops_agree)
  with b show ?thesis by auto
qed

theorem entails_iff_no_counterexample_witness:
  "entails [Var (lit ''P'')] (Or (Var (lit ''P'')) (Var (lit ''Q''))) = Inr True \<and>
   findCounterexample [Var (lit ''P'')] (Or (Var (lit ''P'')) (Var (lit ''Q''))) = Inr None"
proof -
  have "entails [Var (lit ''P'')] (Or (Var (lit ''P'')) (Var (lit ''Q''))) = Inr True"
    by code_simp
  then show ?thesis
    using entails_iff_no_counterexample
            [of "[Var (lit ''P'')]" "Or (Var (lit ''P'')) (Var (lit ''Q''))"]
    by simp
qed

section \<open>Facts about the checker\<close>

lemma formulaEquals_iff: "formulaEquals a b = (a = b)"
  by (induction a b rule: formulaEquals.induct) auto































text \<open>
  C1. The checker accepts as valid and complete a proof of \<open>P\<close> from no premises, which
  cites the assumption of a closed subproof from the outer proof; \<open>P\<close> is not entailed.
\<close>

theorem checkProof_accepts_unentailed:
  "checkProof
     [makeStep (Var (lit ''P'')) Assumption [] 1 ''s1'',
      makeStep (Implies (Var (lit ''P'')) (Var (lit ''P''))) Implies_intro [''s1''] 0 ''s2'',
      makeStep (Var (lit ''P'')) Implies_elim [''s2'', ''s1''] 0 ''s3'']
     [] (Var (lit ''P'')) []
   = \<lparr>valid = True, complete = True, errors = []\<rparr> \<and>
   entails [] (Var (lit ''P'')) = Inr False"
  by code_simp

text \<open>
  C2. The final step at depth 0 cites line 1, which lies inside the subproof of lines 0
  to 1 that is closed before it; the checker finds the line accessible and reports no
  error.
\<close>

theorem closed_subproof_line_accessible:
  "subproofEnd (buildProofLineInfo
     [makeStep (And (Var (lit ''P'')) (Var (lit ''Q''))) Assumption [] 1 ''s1'',
      makeStep (Var (lit ''P'')) And_elim_l [''s1''] 1 ''s2'',
      makeStep (Or (Var (lit ''P'')) (Var (lit ''Q''))) Or_intro_l [''s2''] 0 ''s3''] ! 0)
     = Some 1 \<and>
   isLineAccessible (buildProofLineInfo
     [makeStep (And (Var (lit ''P'')) (Var (lit ''Q''))) Assumption [] 1 ''s1'',
      makeStep (Var (lit ''P'')) And_elim_l [''s1''] 1 ''s2'',
      makeStep (Or (Var (lit ''P'')) (Var (lit ''Q''))) Or_intro_l [''s2''] 0 ''s3'']) 1 2 0 \<and>
   errors (checkProof
     [makeStep (And (Var (lit ''P'')) (Var (lit ''Q''))) Assumption [] 1 ''s1'',
      makeStep (Var (lit ''P'')) And_elim_l [''s1''] 1 ''s2'',
      makeStep (Or (Var (lit ''P'')) (Var (lit ''Q''))) Or_intro_l [''s2''] 0 ''s3'']
     [] (Or (Var (lit ''P'')) (Var (lit ''Q''))) []) = []"
  by code_simp

text \<open>
  C5. With both justifications conditionals, \<open>P \<rightarrow> Q\<close> and \<open>(P \<rightarrow> Q) \<rightarrow> R\<close>, the rule
  accepts \<open>R\<close> only when the conditional that is eliminated is cited first; the other
  order is rejected.
\<close>

theorem implies_elim_order_matters:
  "errors (checkProof
     [makeStep (Implies (Var (lit ''P'')) (Var (lit ''Q''))) Assumption [] 0 ''s1'',
      makeStep (Implies (Implies (Var (lit ''P'')) (Var (lit ''Q''))) (Var (lit ''R'')))
        Assumption [] 0 ''s2'',
      makeStep (Var (lit ''R'')) Implies_elim [''s1'', ''s2''] 0 ''s3'']
     [Implies (Var (lit ''P'')) (Var (lit ''Q'')),
      Implies (Implies (Var (lit ''P'')) (Var (lit ''Q''))) (Var (lit ''R''))]
     (Var (lit ''R'')) [])
   = [\<lparr>stepId = ''s3'', code = CONCLUSION_MISMATCH\<rparr>] \<and>
   errors (checkProof
     [makeStep (Implies (Var (lit ''P'')) (Var (lit ''Q''))) Assumption [] 0 ''s1'',
      makeStep (Implies (Implies (Var (lit ''P'')) (Var (lit ''Q''))) (Var (lit ''R'')))
        Assumption [] 0 ''s2'',
      makeStep (Var (lit ''R'')) Implies_elim [''s2'', ''s1''] 0 ''s3'']
     [Implies (Var (lit ''P'')) (Var (lit ''Q'')),
      Implies (Implies (Var (lit ''P'')) (Var (lit ''Q''))) (Var (lit ''R''))]
     (Var (lit ''R'')) [])
   = []"
  by code_simp

section \<open>Facts about truth tables\<close>















section \<open>Facts about the lexer\<close>





















end
